theory Spec2Isabelle
  imports Main
begin

section \<open>The audio transcoder of tmp30.c\<close>

text \<open>
  The program reads one audio stream, decodes it, converts the samples, stores them in a
  FIFO buffer, and feeds the encoder with frames of the encoder's frame size. Its own code
  is the glue between the calls into libavformat, libavcodec, libswresample and
  libavutil. The model below keeps the program's functions under their names and makes
  every library call a value the environment supplies:

  \<^item> the answers of the demuxer, the decoder, the converter and the allocator during one
    call of \<open>read_decode_convert_and_store\<close> are one \<open>dec_event\<close>; the input file is a
    finite list of them, which a run of \<open>main\<close> ends with the end of the file
    (\<open>end_of_file\<close>);
  \<^item> the answers of the allocator, the encoder and the muxer during one call of
    \<open>load_encode_and_write\<close> or \<open>encode_audio_frame\<close> are one \<open>enc_event\<close>, computed by a
    function \<open>enc\<close> from the state \<open>'w\<close> of the collaborators and from what is pushed
    (\<open>Some n\<close>: a frame of \<open>n\<close> samples, \<open>None\<close>: the null frame);
  \<^item> the audio FIFO of libavutil is its number of samples: writing \<open>n\<close> samples adds
    \<open>n\<close>, reading \<open>n\<close> samples removes \<open>min n size\<close> and returns that number;
  \<^item> the value an uninitialised variable holds when it is read is an answer of the
    environment too (\<open>conv_isamps_indeterminate\<close>). Freeing through such a pointer is
    undefined behaviour: the call is recorded in the trace (\<open>FreeIndeterminate\<close>), and every
    caller ends the run at a state whose trace holds it.

  C's \<open>int\<close> and \<open>int64_t\<close> are modelled by \<open>int\<close>: signed overflow is undefined
  in C, so the model describes the runs in which no counter leaves its range. Sample data
  is not modelled, only sample counts. The debugging counter \<open>outlooptimes\<close> of \<open>main\<close>,
  which is only printed, is left out.
\<close>

subsection \<open>Error codes of libavutil\<close>

definition AVERROR :: "int \<Rightarrow> int" where
  "AVERROR e = - e"

definition EAGAIN :: int where
  "EAGAIN = 11"

definition ENOMEM :: int where
  "ENOMEM = 12"

definition EINVAL :: int where
  "EINVAL = 22"

text \<open>\<open>FFERRTAG('E','O','F',' ')\<close> and \<open>FFERRTAG('E','X','I','T')\<close>.\<close>

definition AVERROR_EOF :: int where
  "AVERROR_EOF = - 541478725"

definition AVERROR_EXIT :: int where
  "AVERROR_EXIT = - 1414092869"

definition AV_NOPTS_VALUE :: int where
  "AV_NOPTS_VALUE = - (2 ^ 63)"

subsection \<open>Data\<close>

text \<open>An \<open>AVFrame\<close>: its number of samples and its presentation timestamp.\<close>

record frame =
  nb_samples :: int
  frame_pts :: int

text \<open>An \<open>AVCodecContext\<close>: the two fields the program reads.\<close>

record codec_ctx =
  sample_rate :: int
  frame_size :: int

text \<open>
  What the collaborators answer during one call of \<open>read_decode_convert_and_store\<close>:
  whether \<open>av_frame_alloc\<close> and \<open>av_packet_alloc\<close> returned memory, the return values of
  the calls, the \<open>nb_samples\<close> of the frame the decoder filled, and the value the pointer
  \<open>conv_isamps\<close> is found to hold (0 for \<open>NULL\<close>) when the label \<open>cleanup\<close> is reached by a
  jump over its initialiser at line 530.
\<close>

record dec_event =
  in_frame_alloc_ok :: bool
  in_packet_alloc_ok :: bool
  av_read_frame_ret :: int
  avcodec_send_packet_ret :: int
  avcodec_receive_frame_ret :: int
  input_nb_samples :: int
  av_samples_alloc_ret :: int
  swr_convert_ret :: int
  av_audio_fifo_realloc_ret :: int
  av_audio_fifo_write_ret :: int
  conv_isamps_indeterminate :: int

text \<open>What the collaborators answer during one call of \<open>load_encode_and_write\<close>
  (all fields) or of \<open>encode_audio_frame\<close> (the last four).\<close>

record enc_event =
  out_frame_alloc_ok :: bool
  av_frame_get_buffer_ret :: int
  out_packet_alloc_ok :: bool
  avcodec_send_frame_ret :: int
  avcodec_receive_packet_ret :: int
  av_write_frame_ret :: int

text \<open>The calls a run leaves behind, oldest first: a frame received from the decoder (with
  its sample count), a frame or the null frame sent to the encoder, a packet written to
  the muxer, the header and the trailer, and \<open>av_freep(&conv_isamps[0])\<close> called with an
  indeterminate \<open>conv_isamps\<close>.\<close>

datatype event =
    WriteHeader
  | ReceiveFrame int
  | SendFrame "frame option"
  | WriteFrame
  | WriteTrailer
  | FreeIndeterminate

text \<open>The mutable state: the size of the FIFO, the global \<open>pts\<close>, the events of the input
  not yet consumed, the state of the collaborators on the output side, and the trace.\<close>

record 'w state =
  fifo :: int
  pts :: int
  input :: "dec_event list"
  world :: 'w
  trace :: "event list"

text \<open>How a loop is left: by its condition or a \<open>break\<close>, by \<open>goto cleanup\<close>, or not at all
  because the behaviour of the program has become undefined.\<close>

datatype loop_exit = Done | Cleanup | Undefined

definition log_event :: "event \<Rightarrow> 'w state \<Rightarrow> 'w state" where
  "log_event e st = st\<lparr>trace := trace st @ [e]\<rparr>"

definition freed_indeterminate :: "'w state \<Rightarrow> bool" where
  "freed_indeterminate st = (FreeIndeterminate \<in> set (trace st))"

subsection \<open>The input as a finite script\<close>

text \<open>The end of the file: the demuxer reports end of file, the decoder takes the flush
  packet and reports end of file; \<open>p\<close> is what \<open>conv_isamps\<close> is found to hold at the label
  \<open>cleanup\<close>.\<close>

definition end_of_file :: "int \<Rightarrow> dec_event" where
  "end_of_file p =
     \<lparr>in_frame_alloc_ok = True, in_packet_alloc_ok = True,
      av_read_frame_ret = AVERROR_EOF, avcodec_send_packet_ret = 0,
      avcodec_receive_frame_ret = AVERROR_EOF, input_nb_samples = 0,
      av_samples_alloc_ret = 0, swr_convert_ret = 0,
      av_audio_fifo_realloc_ret = 0, av_audio_fifo_write_ret = 0,
      conv_isamps_indeterminate = p\<rparr>"

text \<open>A run of \<open>main\<close> ends its list with the end of the file (\<open>initial_state\<close>), so the list
  is used up only in a state built by hand. Nothing is promised there: the answer is the
  end of the file with a pointer that is not null.\<close>

definition end_of_input :: dec_event where
  "end_of_input = end_of_file 1"

fun next_event :: "dec_event list \<Rightarrow> dec_event \<times> dec_event list" where
  "next_event [] = (end_of_input, [])"
| "next_event (ev # evs) = (ev, evs)"

subsection \<open>The audio FIFO of libavutil\<close>

definition av_audio_fifo_size :: "'w state \<Rightarrow> int" where
  "av_audio_fifo_size st = fifo st"

text \<open>\<open>av_audio_fifo_write\<close> returns a negative error code, or the number of samples
  written, which is always the number asked for. The first argument is the
  environment's answer (negative: the write fails).\<close>

definition av_audio_fifo_write :: "int \<Rightarrow> int \<Rightarrow> 'w state \<Rightarrow> int \<times> 'w state" where
  "av_audio_fifo_write answer n st =
     (if answer < 0 then (answer, st) else (n, st\<lparr>fifo := fifo st + n\<rparr>))"

text \<open>\<open>av_audio_fifo_read\<close> rejects a negative count and otherwise reads
  \<open>min n size\<close> samples.\<close>

definition av_audio_fifo_read :: "int \<Rightarrow> 'w state \<Rightarrow> int \<times> 'w state" where
  "av_audio_fifo_read n st =
     (if n < 0 then (AVERROR EINVAL, st)
      else (min n (fifo st), st\<lparr>fifo := fifo st - min n (fifo st)\<rparr>))"

subsection \<open>Decoding: lines 248 to 556\<close>

definition init_packet :: "bool \<Rightarrow> int" where
  "init_packet alloc_ok = (if alloc_ok then 0 else AVERROR ENOMEM)"

definition init_input_frame :: "bool \<Rightarrow> int" where
  "init_input_frame alloc_ok = (if alloc_ok then 0 else AVERROR ENOMEM)"

text \<open>\<open>decode_audio_frame\<close> returns the error code, \<open>*data_present\<close> and \<open>*finished\<close>.
  When \<open>init_packet\<close> fails, neither flag is written: \<open>finished\<close> keeps the value it had
  and \<open>data_present\<close>, which the caller never reads then, is given as \<open>False\<close>.\<close>

definition decode_audio_frame ::
  "dec_event \<Rightarrow> bool \<Rightarrow> 'w state \<Rightarrow> int \<times> bool \<times> bool \<times> 'w state" where
  "decode_audio_frame ev finished st =
     (if init_packet (in_packet_alloc_ok ev) < 0
      then (init_packet (in_packet_alloc_ok ev), False, finished, st)
      else if av_read_frame_ret ev < 0 \<and> av_read_frame_ret ev \<noteq> AVERROR_EOF
      then (av_read_frame_ret ev, False, False, st)
      else
        let finished1 = (av_read_frame_ret ev < 0) in
        if avcodec_send_packet_ret ev < 0
        then (avcodec_send_packet_ret ev, False, finished1, st)
        else
          let error = avcodec_receive_frame_ret ev in
          if error = AVERROR EAGAIN then (0, False, finished1, st)
          else if error = AVERROR_EOF then (0, False, True, st)
          else if error < 0 then (error, False, finished1, st)
          else (error, True, finished1, log_event (ReceiveFrame (input_nb_samples ev)) st))"

definition init_converted_samples :: "dec_event \<Rightarrow> int" where
  "init_converted_samples ev =
     (if av_samples_alloc_ret ev < 0 then av_samples_alloc_ret ev else 0)"

definition convert_samples :: "dec_event \<Rightarrow> int" where
  "convert_samples ev = (if swr_convert_ret ev < 0 then swr_convert_ret ev else 0)"

definition add_samples_to_fifo :: "dec_event \<Rightarrow> int \<Rightarrow> 'w state \<Rightarrow> int \<times> 'w state" where
  "add_samples_to_fifo ev frame_size' st =
     (if av_audio_fifo_realloc_ret ev < 0 then (av_audio_fifo_realloc_ret ev, st)
      else
        case av_audio_fifo_write (av_audio_fifo_write_ret ev) frame_size' st of
          (written, st') \<Rightarrow>
            if written < frame_size' then (AVERROR_EXIT, st') else (0, st'))"

text \<open>The label \<open>cleanup\<close> of \<open>read_decode_convert_and_store\<close> (lines 549 to 553), reached
  by one of the three jumps that come before the declaration \<open>conv_isamps = NULL\<close> of line
  530 (lines 514, 519 and 526): the variable has not been initialised. When it is found to
  hold \<open>NULL\<close>, nothing is freed through it; otherwise \<open>av_freep(&conv_isamps[0])\<close> reads and
  frees through the indeterminate pointer, and the behaviour is undefined from there on.
  Reached after line 530, \<open>conv_isamps\<close> is \<open>NULL\<close> or the array allocated at line 534, and the
  label frees what was allocated.\<close>

definition cleanup_uninitialised :: "dec_event \<Rightarrow> 'w state \<Rightarrow> 'w state" where
  "cleanup_uninitialised ev st =
     (if conv_isamps_indeterminate ev \<noteq> 0 then log_event FreeIndeterminate st else st)"

text \<open>\<open>read_decode_convert_and_store\<close> takes the next event of the input and returns
  \<open>ret\<close>, \<open>*finished\<close> and the state. After the undefined free nothing is known of what it
  returns; the values given are those of the variables at that moment, and the callers do
  not use them (\<open>freed_indeterminate\<close>).\<close>

definition read_decode_convert_and_store ::
  "bool \<Rightarrow> 'w state \<Rightarrow> int \<times> bool \<times> 'w state" where
  "read_decode_convert_and_store finished st0 =
     (case next_event (input st0) of
        (ev, rest) \<Rightarrow>
          let st = st0\<lparr>input := rest\<rparr> in
          if init_input_frame (in_frame_alloc_ok ev) \<noteq> 0
          then (AVERROR_EXIT, finished, cleanup_uninitialised ev st)
          else
            case decode_audio_frame ev finished st of
              (error, data_present, finished', st') \<Rightarrow>
                if error \<noteq> 0 then (AVERROR_EXIT, finished', cleanup_uninitialised ev st')
                else if finished' then (0, finished', cleanup_uninitialised ev st')
                else if data_present then
                  if init_converted_samples ev \<noteq> 0 then (AVERROR_EXIT, finished', st')
                  else if convert_samples ev \<noteq> 0 then (AVERROR_EXIT, finished', st')
                  else
                    case add_samples_to_fifo ev (input_nb_samples ev) st' of
                      (error', st'') \<Rightarrow>
                        if error' \<noteq> 0 then (AVERROR_EXIT, finished', st'')
                        else (0, finished', st'')
                else (0, finished', st'))"

subsection \<open>Encoding: lines 566 to 703\<close>

definition init_output_frame :: "enc_event \<Rightarrow> int \<Rightarrow> int \<times> frame option" where
  "init_output_frame ev frame_size' =
     (if \<not> out_frame_alloc_ok ev then (AVERROR_EXIT, None)
      else if av_frame_get_buffer_ret ev < 0 then (av_frame_get_buffer_ret ev, None)
      else (0, Some \<lparr>nb_samples = frame_size', frame_pts = AV_NOPTS_VALUE\<rparr>))"

text \<open>\<open>encode_audio_frame\<close> returns the error code, \<open>*data_present\<close> and the state. The
  frame is stamped with \<open>pts\<close>, and \<open>pts\<close> advanced, before the frame is sent.\<close>

definition encode_audio_frame ::
  "frame option \<Rightarrow> enc_event \<Rightarrow> 'w state \<Rightarrow> int \<times> bool \<times> 'w state" where
  "encode_audio_frame fr ev st =
     (if init_packet (out_packet_alloc_ok ev) < 0
      then (init_packet (out_packet_alloc_ok ev), False, st)
      else
        let (fr', st1) =
              (case fr of
                 None \<Rightarrow> (None, st)
               | Some f \<Rightarrow>
                   (Some (f\<lparr>frame_pts := pts st\<rparr>), st\<lparr>pts := pts st + nb_samples f\<rparr>));
            st2 = log_event (SendFrame fr') st1
        in
          if avcodec_send_frame_ret ev < 0 \<and> avcodec_send_frame_ret ev \<noteq> AVERROR_EOF
          then (avcodec_send_frame_ret ev, False, st2)
          else
            let error = avcodec_receive_packet_ret ev in
            if error = AVERROR EAGAIN then (0, False, st2)
            else if error = AVERROR_EOF then (0, False, st2)
            else if error < 0 then (error, False, st2)
            else (av_write_frame_ret ev, True, log_event WriteFrame st2))"

text \<open>\<open>load_encode_and_write\<close> asks the collaborators for their answers to a frame of
  \<open>frame_size\<close> samples.\<close>

definition load_encode_and_write ::
  "('w \<Rightarrow> int option \<Rightarrow> enc_event \<times> 'w) \<Rightarrow> codec_ctx \<Rightarrow> 'w state \<Rightarrow> int \<times> 'w state" where
  "load_encode_and_write enc outccx st0 =
     (let frame_size' = min (av_audio_fifo_size st0) (frame_size outccx) in
      case enc (world st0) (Some frame_size') of
        (ev, w') \<Rightarrow>
          let st = st0\<lparr>world := w'\<rparr> in
          case init_output_frame ev frame_size' of
            (error, output_frame) \<Rightarrow>
              if error \<noteq> 0 then (AVERROR_EXIT, st)
              else
                case av_audio_fifo_read frame_size' st of
                  (got, st1) \<Rightarrow>
                    if got < frame_size' then (AVERROR_EXIT, st1)
                    else
                      case encode_audio_frame output_frame ev st1 of
                        (error', data_written, st2) \<Rightarrow>
                          if error' \<noteq> 0 then (AVERROR_EXIT, st2) else (0, st2))"

subsection \<open>The loops of main: lines 757 to 805\<close>

text \<open>The filling loop (lines 767 to 777). Every pass consumes one event of the input,
  and the pass that finds the input used up ends the loop, so the loop is total. A pass in
  which the pump frees the indeterminate pointer ends the run.\<close>

function fill_loop :: "codec_ctx \<Rightarrow> bool \<Rightarrow> 'w state \<Rightarrow> loop_exit \<times> bool \<times> 'w state" where
  "fill_loop outccx finished st =
     (if av_audio_fifo_size st < frame_size outccx then
        (case read_decode_convert_and_store finished st of
           (ret, finished', st') \<Rightarrow>
             if freed_indeterminate st' then (Undefined, finished', st')
             else if ret \<noteq> 0 then (Cleanup, finished', st')
             else if finished' then (Done, finished', st')
             else fill_loop outccx finished' st')
      else (Done, finished, st))"
  by pat_completeness auto

text \<open>The draining loop (lines 782 to 791). It need not end: with a frame size that is
  not positive its condition stays true.\<close>

partial_function (option) drain_loop ::
  "('w \<Rightarrow> int option \<Rightarrow> enc_event \<times> 'w) \<Rightarrow> codec_ctx \<Rightarrow> bool \<Rightarrow> 'w state
     \<Rightarrow> (loop_exit \<times> 'w state) option" where
  "drain_loop enc outccx finished st =
     (if av_audio_fifo_size st \<ge> frame_size outccx \<or> (finished \<and> av_audio_fifo_size st > 0)
      then
        (case load_encode_and_write enc outccx st of
           (ret, st') \<Rightarrow>
             if ret \<noteq> 0 then Some (Cleanup, st') else drain_loop enc outccx finished st')
      else Some (Done, st))"

text \<open>The flushing loop (lines 798 to 801), a do-while on \<open>data_written\<close>.\<close>

partial_function (option) flush_loop ::
  "('w \<Rightarrow> int option \<Rightarrow> enc_event \<times> 'w) \<Rightarrow> 'w state \<Rightarrow> (loop_exit \<times> 'w state) option" where
  "flush_loop enc st =
     (case enc (world st) None of
        (ev, w') \<Rightarrow>
          (case encode_audio_frame None ev (st\<lparr>world := w'\<rparr>) of
             (ret, data_written, st') \<Rightarrow>
               if ret \<noteq> 0 then Some (Cleanup, st')
               else if data_written then flush_loop enc st'
               else Some (Done, st')))"

text \<open>The outer \<open>while (1)\<close> (lines 757 to 805); \<open>finished\<close> starts at 0 in every pass.\<close>

partial_function (option) transcode_loop ::
  "('w \<Rightarrow> int option \<Rightarrow> enc_event \<times> 'w) \<Rightarrow> codec_ctx \<Rightarrow> 'w state
     \<Rightarrow> (loop_exit \<times> 'w state) option" where
  "transcode_loop enc outccx st =
     (case fill_loop outccx False st of
        (Cleanup, finished, st1) \<Rightarrow> Some (Cleanup, st1)
      | (Undefined, finished, st1) \<Rightarrow> Some (Undefined, st1)
      | (Done, finished, st1) \<Rightarrow>
          (case drain_loop enc outccx finished st1 of
             None \<Rightarrow> None
           | Some (Cleanup, st2) \<Rightarrow> Some (Cleanup, st2)
           | Some (Undefined, st2) \<Rightarrow> Some (Undefined, st2)
           | Some (Done, st2) \<Rightarrow>
               if finished then flush_loop enc st2
               else transcode_loop enc outccx st2))"

definition write_output_file_trailer :: "int \<Rightarrow> int" where
  "write_output_file_trailer av_write_trailer_ret =
     (if av_write_trailer_ret < 0 then av_write_trailer_ret else 0)"

text \<open>Lines 757 to 811 of \<open>main\<close>: the loop, then the trailer. The result is the value of
  \<open>ret\<close> at the label \<open>cleanup\<close>; in a run whose behaviour has become undefined the label is
  not reached, and the value is the one \<open>ret\<close> held.\<close>

definition transcode ::
  "('w \<Rightarrow> int option \<Rightarrow> enc_event \<times> 'w) \<Rightarrow> codec_ctx \<Rightarrow> int \<Rightarrow> 'w state
     \<Rightarrow> (int \<times> 'w state) option" where
  "transcode enc outccx av_write_trailer_ret st =
     (case transcode_loop enc outccx st of
        None \<Rightarrow> None
      | Some (Cleanup, st') \<Rightarrow> Some (AVERROR_EXIT, st')
      | Some (Undefined, st') \<Rightarrow> Some (AVERROR_EXIT, st')
      | Some (Done, st') \<Rightarrow>
          if write_output_file_trailer av_write_trailer_ret \<noteq> 0
          then Some (AVERROR_EXIT, log_event WriteTrailer st')
          else Some (0, log_event WriteTrailer st'))"

subsection \<open>Opening the files and setting up: lines 62 to 339\<close>

datatype media_type = Audio | Video | Subtitle | Data

record stream =
  codec_type :: media_type
  decoder_found :: bool

text \<open>What the demuxer and the decoder answer while the input is opened: the return
  values, the streams found, and the decoder context as \<open>avcodec_open2\<close> leaves it.\<close>

record input_file =
  avformat_open_input_ret :: int
  avformat_find_stream_info_ret :: int
  streams :: "stream list"
  dec_context_alloc_ok :: bool
  avcodec_parameters_to_context_ret :: int
  dec_avcodec_open2_ret :: int
  dec_context :: codec_ctx

definition open_input_file :: "input_file \<Rightarrow> int \<times> codec_ctx option" where
  "open_input_file f =
     (if avformat_open_input_ret f < 0 then (avformat_open_input_ret f, None)
      else if avformat_find_stream_info_ret f < 0
      then (avformat_find_stream_info_ret f, None)
      else if length (streams f) \<noteq> 1 then (AVERROR_EXIT, None)
      else if \<not> decoder_found (hd (streams f)) then (AVERROR_EXIT, None)
      else if \<not> dec_context_alloc_ok f then (AVERROR ENOMEM, None)
      else if avcodec_parameters_to_context_ret f < 0
      then (avcodec_parameters_to_context_ret f, None)
      else if dec_avcodec_open2_ret f < 0 then (dec_avcodec_open2_ret f, None)
      else (0, Some (dec_context f)))"

text \<open>What the collaborators answer while the output is opened. \<open>avcodec_open2\<close> sets the
  encoder's \<open>frame_size\<close> (\<open>enc_frame_size\<close>) and leaves the sample rate it was given.\<close>

record output_file =
  avio_open_ret :: int
  format_context_alloc_ok :: bool
  guess_format_ok :: bool
  strdup_ok :: bool
  find_encoder_ok :: bool
  new_stream_ok :: bool
  enc_context_alloc_ok :: bool
  enc_avcodec_open2_ret :: int
  enc_frame_size :: int
  avcodec_parameters_from_context_ret :: int

text \<open>The label \<open>cleanup\<close> of \<open>open_output_file\<close>.\<close>

definition open_output_cleanup :: "int \<Rightarrow> int \<times> codec_ctx option" where
  "open_output_cleanup error = (if error < 0 then error else AVERROR_EXIT, None)"

definition open_output_file :: "output_file \<Rightarrow> codec_ctx \<Rightarrow> int \<times> codec_ctx option" where
  "open_output_file f inpccx =
     (if avio_open_ret f < 0 then (avio_open_ret f, None)
      else if \<not> format_context_alloc_ok f then (AVERROR ENOMEM, None)
      else if \<not> guess_format_ok f then open_output_cleanup (avio_open_ret f)
      else if \<not> strdup_ok f then open_output_cleanup (AVERROR ENOMEM)
      else if \<not> find_encoder_ok f then open_output_cleanup (avio_open_ret f)
      else if \<not> new_stream_ok f then open_output_cleanup (AVERROR ENOMEM)
      else if \<not> enc_context_alloc_ok f then open_output_cleanup (AVERROR ENOMEM)
      else
        let avctx = \<lparr>sample_rate = sample_rate inpccx, frame_size = 0\<rparr> in
        if enc_avcodec_open2_ret f < 0 then open_output_cleanup (enc_avcodec_open2_ret f)
        else
          let avctx' = avctx\<lparr>frame_size := enc_frame_size f\<rparr> in
          if avcodec_parameters_from_context_ret f < 0
          then open_output_cleanup (avcodec_parameters_from_context_ret f)
          else (0, Some avctx'))"

text \<open>\<open>init_resampler\<close>: \<open>None\<close> is the abort of \<open>av_assert0\<close>.\<close>

definition init_resampler :: "int \<Rightarrow> int \<Rightarrow> codec_ctx \<Rightarrow> codec_ctx \<Rightarrow> int option" where
  "init_resampler swr_alloc_set_opts2_ret swr_init_ret inpccx outccx =
     (if swr_alloc_set_opts2_ret < 0 then Some swr_alloc_set_opts2_ret
      else if \<not> (sample_rate outccx = sample_rate inpccx) then None
      else if swr_init_ret < 0 then Some swr_init_ret
      else Some 0)"

definition init_fifo :: "bool \<Rightarrow> int" where
  "init_fifo alloc_ok = (if alloc_ok then 0 else AVERROR ENOMEM)"

definition write_output_file_header :: "int \<Rightarrow> int" where
  "write_output_file_header avformat_write_header_ret =
     (if avformat_write_header_ret < 0 then avformat_write_header_ret else 0)"

subsection \<open>main: lines 721 to 829\<close>

text \<open>Everything a run depends on: the argument count, the answers during the set-up, the
  events of the input up to the end of the file, what \<open>conv_isamps\<close> is found to hold in the
  call of the pump that meets the end of the file, and the collaborators of the output
  side.\<close>

record 'w run =
  argc :: int
  inp :: input_file
  outp :: output_file
  swr_alloc_set_opts2_ret :: int
  swr_init_ret :: int
  fifo_alloc_ok :: bool
  avformat_write_header_ret :: int
  av_write_trailer_ret :: int
  packets :: "dec_event list"
  conv_isamps_at_end :: int
  world0 :: 'w

text \<open>How the process ends: \<open>exit\<close> or \<open>return\<close> from \<open>main\<close> with a status, the abort of
  a failed assertion, or in no way C defines (in practice an abort inside \<open>free\<close>).\<close>

datatype ending = Exit int | Abort | Undefined_behaviour

definition initial_state :: "'w run \<Rightarrow> 'w state" where
  "initial_state r =
     \<lparr>fifo = 0, pts = 0, input = packets r @ [end_of_file (conv_isamps_at_end r)],
      world = world0 r, trace = []\<rparr>"

text \<open>\<open>main\<close> returns how the process ends and the trace of the run; \<open>None\<close> is a run
  that never ends.\<close>

definition main ::
  "('w \<Rightarrow> int option \<Rightarrow> enc_event \<times> 'w) \<Rightarrow> 'w run \<Rightarrow> (ending \<times> event list) option" where
  "main enc r =
     (if argc r \<noteq> 3 then Some (Exit 1, [])
      else
        case open_input_file (inp r) of
          (error, None) \<Rightarrow> Some (Exit AVERROR_EXIT, [])
        | (error, Some inpccx) \<Rightarrow>
            if error \<noteq> 0 then Some (Exit AVERROR_EXIT, [])
            else
              (case open_output_file (outp r) inpccx of
                 (error, None) \<Rightarrow> Some (Exit AVERROR_EXIT, [])
               | (error, Some outccx) \<Rightarrow>
                   if error \<noteq> 0 then Some (Exit AVERROR_EXIT, [])
                   else
                     (case init_resampler (swr_alloc_set_opts2_ret r) (swr_init_ret r)
                             inpccx outccx of
                        None \<Rightarrow> Some (Abort, [])
                      | Some error \<Rightarrow>
                          if error \<noteq> 0 then Some (Exit AVERROR_EXIT, [])
                          else if init_fifo (fifo_alloc_ok r) \<noteq> 0
                          then Some (Exit AVERROR_EXIT, [])
                          else if write_output_file_header (avformat_write_header_ret r) \<noteq> 0
                          then Some (Exit AVERROR_EXIT, [WriteHeader])
                          else
                            (case transcode enc outccx (av_write_trailer_ret r)
                                    (log_event WriteHeader (initial_state r)) of
                               None \<Rightarrow> None
                             | Some (ret, st) \<Rightarrow>
                                 if freed_indeterminate st
                                 then Some (Undefined_behaviour, trace st)
                                 else Some (Exit ret, trace st)))))"

declare drain_loop.simps [code]

declare flush_loop.simps [code]

declare transcode_loop.simps [code]

subsection \<open>Reading a trace\<close>

text \<open>The samples the decoder produced, the samples handed to the encoder, the frames
  handed to the encoder, and the number of null frames pushed.\<close>

fun decoded_samples :: "event list \<Rightarrow> int" where
  "decoded_samples [] = 0"
| "decoded_samples (ReceiveFrame n # es) = n + decoded_samples es"
| "decoded_samples (e # es) = decoded_samples es"

fun pushed :: "event list \<Rightarrow> frame list" where
  "pushed [] = []"
| "pushed (SendFrame (Some f) # es) = f # pushed es"
| "pushed (e # es) = pushed es"

definition encoded_samples :: "event list \<Rightarrow> int" where
  "encoded_samples es = sum_list (map nb_samples (pushed es))"

fun null_pushes :: "event list \<Rightarrow> nat" where
  "null_pushes [] = 0"
| "null_pushes (SendFrame None # es) = Suc (null_pushes es)"
| "null_pushes (e # es) = null_pushes es"

text \<open>\<open>stamped c fs\<close>: the first frame carries the timestamp \<open>c\<close>, and every later frame
  the timestamp of its predecessor plus the predecessor's sample count.\<close>

fun stamped :: "int \<Rightarrow> frame list \<Rightarrow> bool" where
  "stamped c [] = True"
| "stamped c (f # fs) = (frame_pts f = c \<and> stamped (c + nb_samples f) fs)"

text \<open>A sequence of calls of \<open>encode_audio_frame\<close>, each with the frame passed (or the null
  frame) and the collaborators' answers.\<close>

fun encode_all :: "(frame option \<times> enc_event) list \<Rightarrow> 'w state \<Rightarrow> 'w state" where
  "encode_all [] st = st"
| "encode_all ((fr, ev) # calls) st =
     encode_all calls (snd (snd (encode_audio_frame fr ev st)))"

subsection \<open>The buffer's operations as a sequence\<close>

text \<open>An append is a call of \<open>add_samples_to_fifo\<close> (with the library's answers), a consume is
  the call of \<open>av_audio_fifo_read\<close> in \<open>load_encode_and_write\<close>.\<close>

datatype fifo_op = Append dec_event int | Consume int

fun apply_op :: "fifo_op \<Rightarrow> 'w state \<Rightarrow> int \<times> 'w state" where
  "apply_op (Append ev n) st = add_samples_to_fifo ev n st"
| "apply_op (Consume n) st = av_audio_fifo_read n st"

text \<open>The FIFO sizes the code reaches after each operation.\<close>

fun levels :: "fifo_op list \<Rightarrow> 'w state \<Rightarrow> int list" where
  "levels [] st = []"
| "levels (p # ops) st =
     av_audio_fifo_size (snd (apply_op p st)) # levels ops (snd (apply_op p st))"

text \<open>The level as the specification counts it: an append the library accepts adds its
  count, one it rejects adds nothing, a consume takes its count away.\<close>

fun level_after :: "int \<Rightarrow> fifo_op \<Rightarrow> int" where
  "level_after l (Append ev n) =
     (if av_audio_fifo_realloc_ret ev < 0 \<or> av_audio_fifo_write_ret ev < 0 then l else l + n)"
| "level_after l (Consume n) = l - n"

fun expected_levels :: "int \<Rightarrow> fifo_op list \<Rightarrow> int list" where
  "expected_levels l [] = []"
| "expected_levels l (p # ops) = level_after l p # expected_levels (level_after l p) ops"

text \<open>The interleavings the specification speaks of: counts are not negative, and a
  consume never asks for more than the level.\<close>

fun op_ok :: "int \<Rightarrow> fifo_op \<Rightarrow> bool" where
  "op_ok l (Append ev n) = (0 \<le> n)"
| "op_ok l (Consume n) = (0 \<le> n \<and> n \<le> l)"

fun admissible :: "int \<Rightarrow> fifo_op list \<Rightarrow> bool" where
  "admissible l [] = True"
| "admissible l (p # ops) = (op_ok l p \<and> admissible (level_after l p) ops)"

subsection \<open>Encoders that can be flushed\<close>

text \<open>An encoder whose buffered output is finite: \<open>pending\<close> counts the packets it still
  holds. A null push reports no failure; when it yields a packet the muxer writes it and
  one packet less is pending, otherwise the encoder answers EAGAIN or end of file. With
  nothing pending a null push therefore yields no packet, however often it is repeated.\<close>

definition flushes_in_bounded_steps ::
  "('w \<Rightarrow> int option \<Rightarrow> enc_event \<times> 'w) \<Rightarrow> ('w \<Rightarrow> nat) \<Rightarrow> bool" where
  "flushes_in_bounded_steps enc pending =
     (\<forall>w. case enc w None of
        (ev, w') \<Rightarrow>
          out_packet_alloc_ok ev
          \<and> (0 \<le> avcodec_send_frame_ret ev \<or> avcodec_send_frame_ret ev = AVERROR_EOF)
          \<and> (if 0 \<le> avcodec_receive_packet_ret ev
              then av_write_frame_ret ev = 0 \<and> pending w' < pending w
              else avcodec_receive_packet_ret ev = AVERROR EAGAIN
                   \<or> avcodec_receive_packet_ret ev = AVERROR_EOF))"

subsection \<open>Example inputs\<close>

text \<open>One pass of the pump in which every allocation and the conversion succeed: the
  demuxer returns \<open>read_ret\<close>, the decoder \<open>receive_ret\<close> and, when that is a frame, a frame
  of \<open>n\<close> samples; the uninitialised \<open>conv_isamps\<close> is found to hold \<open>NULL\<close>.\<close>

definition packet_event :: "int \<Rightarrow> int \<Rightarrow> int \<Rightarrow> dec_event" where
  "packet_event read_ret receive_ret n =
     \<lparr>in_frame_alloc_ok = True, in_packet_alloc_ok = True,
      av_read_frame_ret = read_ret, avcodec_send_packet_ret = 0,
      avcodec_receive_frame_ret = receive_ret, input_nb_samples = n,
      av_samples_alloc_ret = 0, swr_convert_ret = n,
      av_audio_fifo_realloc_ret = 0, av_audio_fifo_write_ret = n,
      conv_isamps_indeterminate = 0\<rparr>"

text \<open>Answers of the output side with no failure; the encoder returns \<open>receive_ret\<close>.\<close>

definition answer :: "int \<Rightarrow> enc_event" where
  "answer receive_ret =
     \<lparr>out_frame_alloc_ok = True, av_frame_get_buffer_ret = 0, out_packet_alloc_ok = True,
      avcodec_send_frame_ret = 0, avcodec_receive_packet_ret = receive_ret,
      av_write_frame_ret = 0\<rparr>"

text \<open>An encoder that holds every frame back until it is flushed; its state is the number
  of packets it holds.\<close>

fun holding_encoder :: "nat \<Rightarrow> int option \<Rightarrow> enc_event \<times> nat" where
  "holding_encoder n (Some k) = (answer (AVERROR EAGAIN), Suc n)"
| "holding_encoder 0 None = (answer AVERROR_EOF, 0)"
| "holding_encoder (Suc n) None = (answer 0, n)"

text \<open>A run in which the set-up succeeds: the input has the streams \<open>ss\<close> and the events
  \<open>evs\<close>, the encoder's frame size is \<open>E\<close>, and at the end of the file the uninitialised
  \<open>conv_isamps\<close> is found to hold \<open>NULL\<close>.\<close>

definition run_of :: "stream list \<Rightarrow> int \<Rightarrow> dec_event list \<Rightarrow> nat run" where
  "run_of ss E evs =
     \<lparr>argc = 3,
      inp = \<lparr>avformat_open_input_ret = 0, avformat_find_stream_info_ret = 0,
              streams = ss,
              dec_context_alloc_ok = True, avcodec_parameters_to_context_ret = 0,
              dec_avcodec_open2_ret = 0,
              dec_context = \<lparr>sample_rate = 48000, frame_size = 0\<rparr>\<rparr>,
      outp = \<lparr>avio_open_ret = 0, format_context_alloc_ok = True, guess_format_ok = True,
               strdup_ok = True, find_encoder_ok = True, new_stream_ok = True,
               enc_context_alloc_ok = True, enc_avcodec_open2_ret = 0,
               enc_frame_size = E, avcodec_parameters_from_context_ret = 0\<rparr>,
      swr_alloc_set_opts2_ret = 0, swr_init_ret = 0, fifo_alloc_ok = True,
      avformat_write_header_ret = 0, av_write_trailer_ret = 0,
      packets = evs, conv_isamps_at_end = 0, world0 = 0\<rparr>"

definition audio_stream :: stream where
  "audio_stream = \<lparr>codec_type = Audio, decoder_found = True\<rparr>"

definition video_stream :: stream where
  "video_stream = \<lparr>codec_type = Video, decoder_found = True\<rparr>"

definition audio_streams :: "input_file \<Rightarrow> stream list" where
  "audio_streams f = filter (\<lambda>s. codec_type s = Audio) (streams f)"

text \<open>The counter is accounted for: the frames pushed so far are stamped from \<open>c\<close> on, and
  \<open>pts\<close> is \<open>c\<close> plus their sample counts.\<close>

definition pts_accounted :: "int \<Rightarrow> 'w state \<Rightarrow> bool" where
  "pts_accounted c st =
     (stamped c (pushed (trace st)) \<and> pts st = c + sum_list (map nb_samples (pushed (trace st))))"

section \<open>Properties\<close>

subsection \<open>The filling loop ends\<close>

text \<open>A pass of the pump that neither fails nor reports \<open>finished\<close> has consumed an
  event of the input, and on an input that is used up the pump reports \<open>finished\<close>.\<close>

lemma decode_audio_frame_input:
  "decode_audio_frame ev fin st = (e, dp, fin', st') \<Longrightarrow> input st' = input st"
  by (auto simp: decode_audio_frame_def log_event_def Let_def split: if_splits)

lemma add_samples_to_fifo_input:
  "add_samples_to_fifo ev n st = (e, st') \<Longrightarrow> input st' = input st"
  by (auto simp: add_samples_to_fifo_def av_audio_fifo_write_def split: if_splits)

lemma pump_input:
  "read_decode_convert_and_store fin st = (ret, fin', st') \<Longrightarrow>
     input st' = snd (next_event (input st))"
  by (auto simp: read_decode_convert_and_store_def cleanup_uninitialised_def log_event_def
      Let_def
      split: prod.splits if_splits
      dest!: decode_audio_frame_input add_samples_to_fifo_input)

lemma pump_end_of_input:
  "input st = [] \<Longrightarrow> read_decode_convert_and_store fin st = (ret, fin', st') \<Longrightarrow>
     ret = 0 \<and> fin'"
  by (auto simp: read_decode_convert_and_store_def Let_def end_of_input_def end_of_file_def
      decode_audio_frame_def init_packet_def init_input_frame_def AVERROR_def
      AVERROR_EOF_def EAGAIN_def
      split: prod.splits if_splits)

lemma pump_consumes:
  assumes "read_decode_convert_and_store fin st = (0, False, st')"
  shows "length (input st') < length (input st)"
proof -
  have "input st \<noteq> []" using pump_end_of_input[OF _ assms] by auto
  moreover have "input st' = snd (next_event (input st))" using pump_input[OF assms] .
  ultimately show ?thesis by (cases "input st") auto
qed

termination fill_loop
  apply (relation "measure (\<lambda>(outccx, finished, st). length (input st))")
   apply simp
  apply (auto dest: pump_consumes pump_consumes[OF sym])
  done

declare fill_loop.simps [simp del]

subsection \<open>What each step keeps\<close>

lemma encode_audio_frame_keeps:
  "encode_audio_frame fr ev st = (e, dw, st') \<Longrightarrow>
     fifo st' = fifo st \<and> input st' = input st \<and> world st' = world st"
  by (auto simp: encode_audio_frame_def log_event_def Let_def split: if_splits option.splits)

lemma encode_null_pts:
  "encode_audio_frame None ev st = (e, dw, st') \<Longrightarrow> pts st' = pts st"
  by (auto simp: encode_audio_frame_def log_event_def Let_def split: if_splits)

lemma pump_pts:
  "read_decode_convert_and_store fin st = (ret, fin', st') \<Longrightarrow> pts st' = pts st"
  by (auto simp: read_decode_convert_and_store_def decode_audio_frame_def add_samples_to_fifo_def
      av_audio_fifo_write_def cleanup_uninitialised_def log_event_def Let_def
      split: if_splits prod.splits)

lemma flush_loop_pts:
  assumes "flush_loop enc st = Some y"
  shows "pts (snd y) = pts st"
proof (rule flush_loop.raw_induct[where P = "\<lambda>enc st y. pts (snd y) = pts st", OF _ assms],
    goal_cases)
  case (1 f enc st y)
  obtain ev w' where e: "enc (world st) None = (ev, w')" by (cases "enc (world st) None")
  obtain ret dw st' where f: "encode_audio_frame None ev (st\<lparr>world := w'\<rparr>) = (ret, dw, st')"
    by (cases "encode_audio_frame None ev (st\<lparr>world := w'\<rparr>)")
  have p: "pts st' = pts st" using encode_null_pts[OF f] by simp
  show ?case using 1 e f p by (auto split: if_splits)
qed


subsection \<open>The presentation counter\<close>

lemma pushed_append: "pushed (xs @ ys) = pushed xs @ pushed ys"
  by (induction xs rule: pushed.induct) simp_all

lemma stamped_append:
  "stamped c (fs @ gs) = (stamped c fs \<and> stamped (c + sum_list (map nb_samples fs)) gs)"
  by (induction fs arbitrary: c) (auto simp: add.assoc)

lemma stamped_sorted:
  "stamped c fs \<Longrightarrow> \<forall>f\<in>set fs. 0 \<le> nb_samples f \<Longrightarrow>
     sorted (map frame_pts fs) \<and> (\<forall>f\<in>set fs. c \<le> frame_pts f
       \<and> frame_pts f \<le> c + sum_list (map nb_samples fs))"
proof (induction fs arbitrary: c)
  case Nil
  then show ?case by simp
next
  case (Cons f fs)
  have s: "stamped (c + nb_samples f) fs" and fc: "frame_pts f = c" and f0: "0 \<le> nb_samples f"
    using Cons.prems by auto
  have nn: "\<forall>g\<in>set fs. 0 \<le> nb_samples g" using Cons.prems by auto
  have ih: "sorted (map frame_pts fs) \<and> (\<forall>g\<in>set fs. c + nb_samples f \<le> frame_pts g
       \<and> frame_pts g \<le> c + nb_samples f + sum_list (map nb_samples fs))"
    using Cons.IH[OF s nn] .
  have "0 \<le> sum_list (map nb_samples fs)" using nn by (auto intro!: sum_list_nonneg)
  then show ?case using ih fc f0 by (auto simp: add.assoc)
qed

lemma encode_audio_frame_accounted:
  "pts_accounted c st \<Longrightarrow> pts_accounted c (snd (snd (encode_audio_frame fr ev st)))"
  by (cases fr)
    (auto simp: pts_accounted_def encode_audio_frame_def log_event_def Let_def pushed_append
      stamped_append)

lemma encode_all_accounted:
  "pts_accounted c st \<Longrightarrow> pts_accounted c (encode_all calls st)"
  by (induction calls arbitrary: st) (auto simp: encode_audio_frame_accounted)


text \<open>
  C3. The counter starts at 0. After any sequence of calls of \<open>encode_audio_frame\<close> it
  equals the sum of the sample counts of the frames pushed to the encoder; every pushed
  frame carries the value the counter had before that frame's samples were added; and when
  no sample count is negative the timestamps never decrease and never exceed the counter.
\<close>

theorem pts_is_sum_of_pushed_samples:
  "pts (initial_state r) = 0
   \<and> pts (encode_all calls (initial_state r))
       = sum_list (map nb_samples (pushed (trace (encode_all calls (initial_state r)))))
   \<and> stamped 0 (pushed (trace (encode_all calls (initial_state r))))
   \<and> ((\<forall>f\<in>set (pushed (trace (encode_all calls (initial_state r)))). 0 \<le> nb_samples f)
        \<longrightarrow> sorted (map frame_pts (pushed (trace (encode_all calls (initial_state r)))))
          \<and> (\<forall>f\<in>set (pushed (trace (encode_all calls (initial_state r)))).
                frame_pts f \<le> pts (encode_all calls (initial_state r))))"
proof -
  have "pts_accounted 0 (initial_state r)"
    by (simp add: pts_accounted_def initial_state_def)
  then have a: "pts_accounted 0 (encode_all calls (initial_state r))"
    by (rule encode_all_accounted)
  show ?thesis
    using a stamped_sorted[of 0 "pushed (trace (encode_all calls (initial_state r)))"]
    by (auto simp: pts_accounted_def initial_state_def)
qed

theorem pts_is_sum_of_pushed_samples_witness:
  "pts (encode_all [(Some \<lparr>nb_samples = 4, frame_pts = 7\<rparr>, answer 0), (None, answer 0),
        (Some \<lparr>nb_samples = 3, frame_pts = 7\<rparr>, answer (AVERROR EAGAIN))]
        (initial_state (run_of [audio_stream] 4 []))) = 7
   \<and> pushed (trace (encode_all [(Some \<lparr>nb_samples = 4, frame_pts = 7\<rparr>, answer 0), (None, answer 0),
        (Some \<lparr>nb_samples = 3, frame_pts = 7\<rparr>, answer (AVERROR EAGAIN))]
        (initial_state (run_of [audio_stream] 4 []))))
      = [\<lparr>nb_samples = 4, frame_pts = 0\<rparr>, \<lparr>nb_samples = 3, frame_pts = 4\<rparr>]
   \<and> sorted (map frame_pts (pushed (trace (encode_all [(Some \<lparr>nb_samples = 4, frame_pts = 7\<rparr>, answer 0), (None, answer 0),
        (Some \<lparr>nb_samples = 3, frame_pts = 7\<rparr>, answer (AVERROR EAGAIN))]
        (initial_state (run_of [audio_stream] 4 []))))))"
proof -
  let ?calls = "[(Some \<lparr>nb_samples = 4, frame_pts = 7\<rparr>, answer 0), (None, answer 0),
        (Some \<lparr>nb_samples = 3, frame_pts = 7\<rparr>, answer (AVERROR EAGAIN))]"
  let ?r = "run_of [audio_stream] 4 [] :: nat run"
  have p: "pushed (trace (encode_all ?calls (initial_state ?r)))
      = [\<lparr>nb_samples = 4, frame_pts = 0\<rparr>, \<lparr>nb_samples = 3, frame_pts = 4\<rparr>]"
    by (simp add: encode_audio_frame_def answer_def initial_state_def run_of_def log_event_def
        init_packet_def AVERROR_def EAGAIN_def AVERROR_EOF_def Let_def)
  have nn: "\<forall>f\<in>set (pushed (trace (encode_all ?calls (initial_state ?r)))). 0 \<le> nb_samples f"
    unfolding p by simp
  show ?thesis
    using pts_is_sum_of_pushed_samples[of ?r ?calls] nn p by simp
qed

text \<open>
  C10. Pushing the null frame leaves the counter as it is, whatever the collaborators
  answer; a call of \<open>encode_audio_frame\<close> that changes the counter was given a frame; a
  flushing loop that ends leaves the counter as it found it; and the pump leaves it too.
\<close>

theorem null_push_keeps_pts:
  "pts (snd (snd (encode_audio_frame None ev st))) = pts st
   \<and> (pts (snd (snd (encode_audio_frame fr ev st))) \<noteq> pts st \<longrightarrow> fr \<noteq> None)
   \<and> (\<forall>r st'. flush_loop enc st = Some (r, st') \<longrightarrow> pts st' = pts st)
   \<and> pts (snd (snd (read_decode_convert_and_store fin st))) = pts st"
proof -
  have a: "pts (snd (snd (encode_audio_frame None ev st))) = pts st" for ev
    using encode_null_pts[of ev st] by (cases "encode_audio_frame None ev st") auto
  have b: "pts (snd (snd (read_decode_convert_and_store fin st))) = pts st"
    using pump_pts[of fin st] by (cases "read_decode_convert_and_store fin st") auto
  have c: "\<forall>r st'. flush_loop enc st = Some (r, st') \<longrightarrow> pts st' = pts st"
    using flush_loop_pts[of enc st] by auto
  show ?thesis using a b c by (cases fr) auto
qed

theorem null_push_keeps_pts_witness:
  "flush_loop holding_encoder \<lparr>fifo = 0, pts = 8, input = [], world = 2, trace = []\<rparr>
     = Some (Done, \<lparr>fifo = 0, pts = 8, input = [], world = 0,
          trace = [SendFrame None, WriteFrame, SendFrame None, WriteFrame, SendFrame None]\<rparr>)
   \<and> pts (snd (snd (encode_audio_frame (Some \<lparr>nb_samples = 4, frame_pts = 0\<rparr>) (answer 0)
          \<lparr>fifo = 0, pts = 8, input = [], world = 2::nat, trace = []\<rparr>))) = 12
   \<and> pts (snd (snd (encode_audio_frame None (answer 0)
          \<lparr>fifo = 0, pts = 8, input = [], world = 2::nat, trace = []\<rparr>))) = 8"
proof -
  let ?st = "\<lparr>fifo = 0, pts = 8, input = [], world = 2::nat, trace = []\<rparr>"
  have run: "flush_loop holding_encoder ?st
     = Some (Done, \<lparr>fifo = 0, pts = 8, input = [], world = 0,
          trace = [SendFrame None, WriteFrame, SendFrame None, WriteFrame, SendFrame None]\<rparr>)"
    by code_simp
  have push: "pts (snd (snd (encode_audio_frame (Some \<lparr>nb_samples = 4, frame_pts = 0\<rparr>) (answer 0)
          ?st))) = 12"
    by code_simp
  show ?thesis
    using null_push_keeps_pts[of "answer 0" ?st "Some \<lparr>nb_samples = 4, frame_pts = 0\<rparr>"
        holding_encoder False] run push
    by simp
qed

subsection \<open>The buffer level\<close>

lemma apply_op_level:
  "0 \<le> fifo st \<Longrightarrow> op_ok (fifo st) p \<Longrightarrow>
     fifo (snd (apply_op p st)) = level_after (fifo st) p \<and> 0 \<le> level_after (fifo st) p"
  by (cases p)
    (auto simp: add_samples_to_fifo_def av_audio_fifo_write_def av_audio_fifo_read_def
      split: if_splits prod.splits)

text \<open>
  C2. Take any sequence of appends and consumes, starting from a level that is not
  negative, in which no count is negative and every consume asks for at most the level at
  that moment. Then the FIFO sizes the code reaches are the levels the specification
  counts (an accepted append adds its count, a consume takes its count away), and none of
  them is negative.
\<close>

theorem fifo_level_accounting:
  "0 \<le> fifo st \<Longrightarrow> admissible (fifo st) ops \<Longrightarrow>
     levels ops st = expected_levels (fifo st) ops \<and> list_all (\<lambda>l. 0 \<le> l) (levels ops st)"
proof (induction ops arbitrary: st)
  case Nil
  then show ?case by simp
next
  case (Cons p ops)
  have ok: "op_ok (fifo st) p" and rest: "admissible (level_after (fifo st) p) ops"
    using Cons.prems(2) by auto
  have step: "fifo (snd (apply_op p st)) = level_after (fifo st) p"
    and nn: "0 \<le> level_after (fifo st) p"
    using apply_op_level[OF Cons.prems(1) ok] by auto
  note ih = Cons.IH[of "snd (apply_op p st)", unfolded step, OF nn rest]
  have e: "levels ops (snd (apply_op p st)) = expected_levels (level_after (fifo st) p) ops"
    by (rule conjunct1[OF ih])
  have l: "list_all (\<lambda>l. 0 \<le> l) (levels ops (snd (apply_op p st)))"
    by (rule conjunct2[OF ih])
  show ?case using e l step nn by (simp add: av_audio_fifo_size_def)
qed

theorem fifo_level_accounting_witness:
  "levels [Append (packet_event 0 0 5) 5, Consume 4, Append (packet_event 0 0 7) 7, Consume 4,
           Consume 4]
      \<lparr>fifo = 0, pts = 0, input = [], world = (), trace = []\<rparr> = [5, 1, 8, 4, 0]
   \<and> list_all (\<lambda>l. (0::int) \<le> l) [5, 1, 8, 4, 0]"
proof -
  let ?ops = "[Append (packet_event 0 0 5) 5, Consume 4, Append (packet_event 0 0 7) 7, Consume 4,
           Consume 4]"
  let ?st = "\<lparr>fifo = 0, pts = 0, input = [], world = (), trace = []\<rparr>"
  have a: "0 \<le> fifo ?st" by simp
  have b: "admissible (fifo ?st) ?ops" by (simp add: packet_event_def)
  have c: "expected_levels (fifo ?st) ?ops = [5, 1, 8, 4, 0]" by (simp add: packet_event_def)
  show ?thesis using fifo_level_accounting[OF a b] c by simp
qed

subsection \<open>The frame drain\<close>

lemma encode_audio_frame_keeps_fifo:
  "fifo (snd (snd (encode_audio_frame fr ev st))) = fifo st"
  using encode_audio_frame_keeps[of fr ev st]
  by (cases "encode_audio_frame fr ev st") auto

text \<open>
  C5. When the FIFO holds samples and the encoder's frame size is not negative, the frame
  size \<open>load_encode_and_write\<close> computes is \<open>min\<close> of the FIFO size and the encoder's frame
  size, the read from the FIFO returns exactly that many samples, and so the function is
  the same function with the short-read branch removed; when the output frame can be
  allocated, the FIFO is shorter by exactly that many samples afterwards.
\<close>

theorem drain_takes_min_and_reads_in_full:
  assumes level: "0 < fifo st" and size: "0 \<le> frame_size outccx"
    and ans: "enc (world st) (Some (min (fifo st) (frame_size outccx))) = (ev, w')"
  shows "av_audio_fifo_read (min (fifo st) (frame_size outccx)) (st\<lparr>world := w'\<rparr>)
           = (min (fifo st) (frame_size outccx),
              st\<lparr>world := w', fifo := fifo st - min (fifo st) (frame_size outccx)\<rparr>)
    \<and> load_encode_and_write enc outccx st =
        (case init_output_frame ev (min (fifo st) (frame_size outccx)) of
           (error, output_frame) \<Rightarrow>
             if error \<noteq> 0 then (AVERROR_EXIT, st\<lparr>world := w'\<rparr>)
             else
               case encode_audio_frame output_frame ev
                      (st\<lparr>world := w', fifo := fifo st - min (fifo st) (frame_size outccx)\<rparr>) of
                 (error', data_written, st2) \<Rightarrow>
                   if error' \<noteq> 0 then (AVERROR_EXIT, st2) else (0, st2))
    \<and> (fst (init_output_frame ev (min (fifo st) (frame_size outccx))) = 0 \<longrightarrow>
         fifo (snd (load_encode_and_write enc outccx st))
           = fifo st - min (fifo st) (frame_size outccx))"
proof -
  define n where "n = min (fifo st) (frame_size outccx)"
  have n0: "0 \<le> n" and nl: "n \<le> fifo st" using level size by (auto simp: n_def)
  have ans': "enc (world st) (Some n) = (ev, w')" using ans by (simp add: n_def)
  have rd: "av_audio_fifo_read n (st\<lparr>world := w'\<rparr>) = (n, st\<lparr>world := w', fifo := fifo st - n\<rparr>)"
    using n0 nl by (simp add: av_audio_fifo_read_def min_absorb1)
  have eq: "load_encode_and_write enc outccx st =
        (case init_output_frame ev n of
           (error, output_frame) \<Rightarrow>
             if error \<noteq> 0 then (AVERROR_EXIT, st\<lparr>world := w'\<rparr>)
             else
               case encode_audio_frame output_frame ev (st\<lparr>world := w', fifo := fifo st - n\<rparr>) of
                 (error', data_written, st2) \<Rightarrow>
                   if error' \<noteq> 0 then (AVERROR_EXIT, st2) else (0, st2))"
    unfolding load_encode_and_write_def av_audio_fifo_size_def Let_def n_def[symmetric] ans'
      prod.case rd
    by (simp split: prod.splits)
  have lv: "fifo (snd (load_encode_and_write enc outccx st)) = fifo st - n"
    if h: "fst (init_output_frame ev n) = 0"
  proof -
    obtain fr where i: "init_output_frame ev n = (0, fr)"
      using h by (cases "init_output_frame ev n") auto
    obtain e' dw st2 where
      en: "encode_audio_frame fr ev (st\<lparr>world := w', fifo := fifo st - n\<rparr>) = (e', dw, st2)"
      by (cases "encode_audio_frame fr ev (st\<lparr>world := w', fifo := fifo st - n\<rparr>)")
    have "fifo st2 = fifo st - n" using encode_audio_frame_keeps[OF en] by simp
    then show ?thesis unfolding eq i by (simp add: en)
  qed
  show ?thesis using rd eq lv unfolding n_def by blast
qed

theorem drain_takes_min_and_reads_in_full_witness:
  "load_encode_and_write holding_encoder \<lparr>sample_rate = 48000, frame_size = 4\<rparr>
      \<lparr>fifo = 5, pts = 0, input = [], world = 0, trace = []\<rparr>
     = (0, \<lparr>fifo = 1, pts = 4, input = [], world = 1,
             trace = [SendFrame (Some \<lparr>nb_samples = 4, frame_pts = 0\<rparr>)]\<rparr>)
   \<and> av_audio_fifo_read 4 \<lparr>fifo = 5, pts = 0, input = [], world = 1::nat, trace = []\<rparr>
     = (4, \<lparr>fifo = 1, pts = 0, input = [], world = 1, trace = []\<rparr>)"
proof -
  let ?st = "\<lparr>fifo = 5, pts = 0, input = [], world = 0::nat, trace = []\<rparr>"
  let ?ctx = "\<lparr>sample_rate = 48000, frame_size = 4\<rparr>"
  have level: "0 < fifo ?st" by simp
  have size: "0 \<le> frame_size ?ctx" by simp
  have ans: "holding_encoder (world ?st) (Some (min (fifo ?st) (frame_size ?ctx)))
      = (answer (AVERROR EAGAIN), 1)" by simp
  show ?thesis
    using drain_takes_min_and_reads_in_full[where enc = holding_encoder, OF level size ans]
    by (simp add: init_output_frame_def encode_audio_frame_def answer_def init_packet_def
        log_event_def AVERROR_def EAGAIN_def AVERROR_EOF_def Let_def)
qed

subsection \<open>The frame pump\<close>

text \<open>
  C6. The claim fails on the code. In a call of the pump in which the decoder answers end
  of file, \<open>ret\<close> is set to 0 and \<open>finished\<close> is set, but the function leaves by the jump of
  line 526 over the initialiser of \<open>conv_isamps\<close>; in a call in which the decoder reports a
  failure it leaves by the jump of line 519. Where the pointer is not found to hold \<open>NULL\<close>,
  the label \<open>cleanup\<close> frees through it in both calls, and the filling loop gets neither the
  return value 0 nor an error: the behaviour is undefined.
\<close>

theorem pump_exits_free_indeterminate_pointer:
  "freed_indeterminate (snd (snd (read_decode_convert_and_store False
      \<lparr>fifo = 3, pts = 0, input = [end_of_file 1], world = (), trace = []\<rparr>)))
   \<and> fill_loop \<lparr>sample_rate = 48000, frame_size = 4\<rparr> False
      \<lparr>fifo = 3, pts = 0, input = [end_of_file 1], world = (), trace = []\<rparr>
     = (Undefined, True,
        \<lparr>fifo = 3, pts = 0, input = [], world = (), trace = [FreeIndeterminate]\<rparr>)
   \<and> freed_indeterminate (snd (snd (read_decode_convert_and_store False
      \<lparr>fifo = 3, pts = 0,
       input = [(packet_event 0 (- 1) 0)\<lparr>conv_isamps_indeterminate := 1\<rparr>],
       world = (), trace = []\<rparr>)))
   \<and> fill_loop \<lparr>sample_rate = 48000, frame_size = 4\<rparr> False
      \<lparr>fifo = 3, pts = 0,
       input = [(packet_event 0 (- 1) 0)\<lparr>conv_isamps_indeterminate := 1\<rparr>],
       world = (), trace = []\<rparr>
     = (Undefined, False,
        \<lparr>fifo = 3, pts = 0, input = [], world = (), trace = [FreeIndeterminate]\<rparr>)"
  by code_simp

subsection \<open>The end of the stream\<close>

lemma pump_finished:
  "read_decode_convert_and_store fin st = (0, True, st') \<Longrightarrow> \<not> fin \<Longrightarrow>
     fifo st' = fifo st \<and> pts st' = pts st \<and> world st' = world st"
  by (auto simp: read_decode_convert_and_store_def decode_audio_frame_def log_event_def Let_def
      cleanup_uninitialised_def init_input_frame_def AVERROR_def ENOMEM_def AVERROR_EXIT_def
      split: if_splits prod.splits)

lemma fill_loop_finished:
  "fill_loop outccx fin st = (Done, True, st1) \<Longrightarrow> \<not> fin \<Longrightarrow> fifo st1 < frame_size outccx"
proof (induction outccx fin st rule: fill_loop.induct)
  case (1 outccx finished st)
  show ?case
  proof (cases "av_audio_fifo_size st < frame_size outccx")
    case False
    then show ?thesis using "1.prems" by (simp add: fill_loop.simps)
  next
    case True
    obtain ret fin' st' where p: "read_decode_convert_and_store finished st = (ret, fin', st')"
      by (cases "read_decode_convert_and_store finished st")
    have nu: "\<not> freed_indeterminate st'" and r0: "\<not> ret \<noteq> 0"
      using "1.prems" True p by (auto simp: fill_loop.simps split: if_splits)
    show ?thesis
    proof (cases fin')
      case f: True
      have "st1 = st'" using "1.prems" True p nu r0 f by (simp add: fill_loop.simps)
      moreover have "fifo st' = fifo st"
        using pump_finished[of finished st st'] p r0 f "1.prems" by simp
      ultimately show ?thesis using True by (simp add: av_audio_fifo_size_def)
    next
      case f: False
      have "fill_loop outccx fin' st' = (Done, True, st1)"
        using "1.prems" True p nu r0 f by (simp add: fill_loop.simps)
      then show ?thesis
        using "1.IH"[OF True p[symmetric] refl nu r0 f _ f] by simp
    qed
  qed
qed

lemma pushed_snoc_send [simp]:
  "pushed (es @ [SendFrame (Some f)]) = pushed es @ [f]"
  "pushed (es @ [SendFrame None]) = pushed es"
  "pushed (es @ [WriteFrame]) = pushed es"
  by (simp_all add: pushed_append)

lemma load_encode_and_write_input:
  "load_encode_and_write enc outccx st = (r, st') \<Longrightarrow> input st' = input st"
  by (auto simp: load_encode_and_write_def av_audio_fifo_read_def Let_def
      split: prod.splits if_splits dest!: encode_audio_frame_keeps)

lemma drain_remainder:
  assumes "0 < fifo st" "fifo st < frame_size outccx"
    and "load_encode_and_write enc outccx st = (0, st2)"
  shows "fifo st2 = 0
     \<and> pushed (trace st2) = pushed (trace st) @ [\<lparr>nb_samples = fifo st, frame_pts = pts st\<rparr>]"
  using assms
  by (auto simp: load_encode_and_write_def av_audio_fifo_read_def av_audio_fifo_size_def Let_def
      init_output_frame_def encode_audio_frame_def log_event_def AVERROR_EXIT_def
      pushed_append split: prod.splits if_splits)

lemma flush_loop_input:
  assumes "flush_loop enc st = Some y"
  shows "input (snd y) = input st"
proof (rule flush_loop.raw_induct[where P = "\<lambda>enc st y. input (snd y) = input st", OF _ assms],
    goal_cases)
  case (1 f enc st y)
  obtain ev w' where e: "enc (world st) None = (ev, w')" by (cases "enc (world st) None")
  obtain ret dw st' where f: "encode_audio_frame None ev (st\<lparr>world := w'\<rparr>) = (ret, dw, st')"
    by (cases "encode_audio_frame None ev (st\<lparr>world := w'\<rparr>)")
  have p: "input st' = input st" using encode_audio_frame_keeps[OF f] by simp
  show ?case using 1 e f p by (auto split: if_splits)
qed

lemma drain_loop_at_end_of_stream:
  assumes lt: "fifo st1 < frame_size outccx"
  shows "drain_loop enc outccx True st1 =
     (if 0 < fifo st1 then
        (case load_encode_and_write enc outccx st1 of
           (ret, st2) \<Rightarrow> if ret \<noteq> 0 then Some (Cleanup, st2) else Some (Done, st2))
      else Some (Done, st1))"
proof (cases "0 < fifo st1")
  case False
  then show ?thesis using lt
    by (subst drain_loop.simps) (simp add: av_audio_fifo_size_def)
next
  case True
  obtain ret st2 where l: "load_encode_and_write enc outccx st1 = (ret, st2)"
    by (cases "load_encode_and_write enc outccx st1")
  show ?thesis
  proof (cases "ret = 0")
    case False
    then show ?thesis using True l
      by (subst drain_loop.simps) (simp add: av_audio_fifo_size_def)
  next
    case r0: True
    have z: "fifo st2 = 0" using drain_remainder[OF True lt] l r0 by simp
    have stop: "drain_loop enc outccx True st2 = Some (Done, st2)"
      using z True lt by (subst drain_loop.simps) (simp add: av_audio_fifo_size_def)
    show ?thesis using True l r0 stop
      by (subst drain_loop.simps) (simp add: av_audio_fifo_size_def)
  qed
qed

text \<open>
  What the outer loop does once the filling loop has ended with \<open>finished\<close> set, in the state
  \<open>st1\<close>, which it does only when the label \<open>cleanup\<close> of the pump found \<open>conv_isamps\<close> to hold
  \<open>NULL\<close>. The FIFO holds less than one encoder frame; when it is not empty, one call of
  \<open>load_encode_and_write\<close> pushes one frame of all the samples left and leaves it empty; then
  comes the flushing loop, and no further pass of the outer loop. No event of the input is
  consumed after \<open>st1\<close>. When the loop ends without a failure, the trailer is written next.
\<close>

lemma finished_then_one_drain_then_flush:
  assumes fill: "fill_loop outccx False st = (Done, True, st1)"
  shows "fifo st1 < frame_size outccx
    \<and> transcode_loop enc outccx st =
        (if 0 < fifo st1 then
           (case load_encode_and_write enc outccx st1 of
              (ret, st2) \<Rightarrow> if ret \<noteq> 0 then Some (Cleanup, st2) else flush_loop enc st2)
         else flush_loop enc st1)
    \<and> (\<forall>st2. 0 < fifo st1 \<and> load_encode_and_write enc outccx st1 = (0, st2) \<longrightarrow>
          fifo st2 = 0
          \<and> pushed (trace st2)
              = pushed (trace st1) @ [\<lparr>nb_samples = fifo st1, frame_pts = pts st1\<rparr>])
    \<and> (\<forall>r st'. transcode_loop enc outccx st = Some (r, st') \<longrightarrow> input st' = input st1)
    \<and> (\<forall>st'. transcode_loop enc outccx st = Some (Done, st') \<longrightarrow>
          transcode enc outccx tr st
            = Some (if write_output_file_trailer tr \<noteq> 0 then AVERROR_EXIT else 0,
                    log_event WriteTrailer st'))"
proof -
  have lt: "fifo st1 < frame_size outccx" using fill_loop_finished[OF fill] by simp
  have eq: "transcode_loop enc outccx st =
        (if 0 < fifo st1 then
           (case load_encode_and_write enc outccx st1 of
              (ret, st2) \<Rightarrow> if ret \<noteq> 0 then Some (Cleanup, st2) else flush_loop enc st2)
         else flush_loop enc st1)"
  proof (cases "0 < fifo st1")
    case False
    then have d: "drain_loop enc outccx True st1 = Some (Done, st1)"
      using drain_loop_at_end_of_stream[OF lt, of enc] by simp
    show ?thesis using False by (subst transcode_loop.simps) (simp add: fill d)
  next
    case True
    obtain ret st2 where l: "load_encode_and_write enc outccx st1 = (ret, st2)"
      by (cases "load_encode_and_write enc outccx st1")
    have d: "drain_loop enc outccx True st1
        = (if ret \<noteq> 0 then Some (Cleanup, st2) else Some (Done, st2))"
      using drain_loop_at_end_of_stream[OF lt, of enc] True l by simp
    show ?thesis using True l by (subst transcode_loop.simps) (simp add: fill d)
  qed
  have rem: "\<forall>st2. 0 < fifo st1 \<and> load_encode_and_write enc outccx st1 = (0, st2) \<longrightarrow>
          fifo st2 = 0
          \<and> pushed (trace st2)
              = pushed (trace st1) @ [\<lparr>nb_samples = fifo st1, frame_pts = pts st1\<rparr>]"
    using drain_remainder[OF _ lt] by blast
  have inp: "input st' = input st1" if t: "transcode_loop enc outccx st = Some (r, st')" for r st'
  proof (cases "0 < fifo st1")
    case False
    then have "flush_loop enc st1 = Some (r, st')" using t eq by simp
    then show ?thesis using flush_loop_input by fastforce
  next
    case True
    obtain ret st2 where l: "load_encode_and_write enc outccx st1 = (ret, st2)"
      by (cases "load_encode_and_write enc outccx st1")
    have i2: "input st2 = input st1" using load_encode_and_write_input[OF l] .
    show ?thesis
    proof (cases "ret = 0")
      case False
      then show ?thesis using t eq True l i2 by simp
    next
      case r0: True
      then have "flush_loop enc st2 = Some (r, st')" using t eq True l by simp
      then have "input st' = input st2" using flush_loop_input by fastforce
      then show ?thesis using i2 by simp
    qed
  qed
  have trl: "\<forall>st'. transcode_loop enc outccx st = Some (Done, st') \<longrightarrow>
          transcode enc outccx tr st
            = Some (if write_output_file_trailer tr \<noteq> 0 then AVERROR_EXIT else 0,
                    log_event WriteTrailer st')"
    by (simp add: transcode_def)
  have inp': "\<forall>r st'. transcode_loop enc outccx st = Some (r, st') \<longrightarrow> input st' = input st1"
    using inp by blast
  show ?thesis
    by (intro conjI) (rule lt, rule eq, rule rem, rule inp', rule trl)
qed


text \<open>
  C4. The claim fails on the code. The call of the pump that sets \<open>finished\<close> leaves by the
  jump of line 526 over the initialiser of \<open>conv_isamps\<close>, and the label \<open>cleanup\<close> frees through
  that pointer. Where it is not found to hold \<open>NULL\<close>, the run ends there: on the input of
  no packets nothing is flushed and no trailer is written, and on an input of one frame of
  3 samples, with an encoder frame size of 4, the 3 samples left in the FIFO are never
  handed to the encoder.
\<close>

theorem end_of_stream_frees_indeterminate_pointer:
  "main holding_encoder ((run_of [audio_stream] 4 [])\<lparr>conv_isamps_at_end := 1\<rparr>)
     = Some (Undefined_behaviour, [WriteHeader, FreeIndeterminate])
   \<and> main holding_encoder
        ((run_of [audio_stream] 4 [packet_event 0 0 3])\<lparr>conv_isamps_at_end := 1\<rparr>)
     = Some (Undefined_behaviour, [WriteHeader, ReceiveFrame 3, FreeIndeterminate])
   \<and> pushed [WriteHeader, ReceiveFrame 3, FreeIndeterminate] = []"
proof -
  have a: "main holding_encoder ((run_of [audio_stream] 4 [])\<lparr>conv_isamps_at_end := 1\<rparr>)
     = Some (Undefined_behaviour, [WriteHeader, FreeIndeterminate])"
    by code_simp
  have b: "main holding_encoder
        ((run_of [audio_stream] 4 [packet_event 0 0 3])\<lparr>conv_isamps_at_end := 1\<rparr>)
     = Some (Undefined_behaviour, [WriteHeader, ReceiveFrame 3, FreeIndeterminate])"
    by code_simp
  show ?thesis using a b by simp
qed

subsection \<open>Flushing the encoder\<close>

lemma null_pushes_append: "null_pushes (xs @ ys) = null_pushes xs + null_pushes ys"
  by (induction xs rule: null_pushes.induct) simp_all

lemma flush_step:
  assumes h: "flushes_in_bounded_steps enc pending"
    and e: "enc (world st) None = (ev, w')"
  shows "(0 \<le> avcodec_receive_packet_ret ev \<longrightarrow>
           pending w' < pending (world st)
           \<and> encode_audio_frame None ev (st\<lparr>world := w'\<rparr>)
               = (0, True, log_event WriteFrame (log_event (SendFrame None) (st\<lparr>world := w'\<rparr>))))
       \<and> (\<not> 0 \<le> avcodec_receive_packet_ret ev \<longrightarrow>
           encode_audio_frame None ev (st\<lparr>world := w'\<rparr>)
               = (0, False, log_event (SendFrame None) (st\<lparr>world := w'\<rparr>)))"
proof -
  have "case enc (world st) None of
        (ev, w') \<Rightarrow>
          out_packet_alloc_ok ev
          \<and> (0 \<le> avcodec_send_frame_ret ev \<or> avcodec_send_frame_ret ev = AVERROR_EOF)
          \<and> (if 0 \<le> avcodec_receive_packet_ret ev
              then av_write_frame_ret ev = 0 \<and> pending w' < pending (world st)
              else avcodec_receive_packet_ret ev = AVERROR EAGAIN
                   \<or> avcodec_receive_packet_ret ev = AVERROR_EOF)"
    using h[unfolded flushes_in_bounded_steps_def, THEN spec, of "world st"] .
  then have k: "out_packet_alloc_ok ev"
    "0 \<le> avcodec_send_frame_ret ev \<or> avcodec_send_frame_ret ev = AVERROR_EOF"
    "if 0 \<le> avcodec_receive_packet_ret ev
              then av_write_frame_ret ev = 0 \<and> pending w' < pending (world st)
              else avcodec_receive_packet_ret ev = AVERROR EAGAIN
                   \<or> avcodec_receive_packet_ret ev = AVERROR_EOF"
    unfolding e by simp_all
  show ?thesis using k
    by (auto simp: encode_audio_frame_def init_packet_def Let_def AVERROR_def EAGAIN_def
        AVERROR_EOF_def split: if_splits)
qed

lemma flush_loop_terminates:
  assumes h: "flushes_in_bounded_steps enc pending"
  shows "\<exists>st'. flush_loop enc st = Some (Done, st')
           \<and> null_pushes (trace st') \<le> null_pushes (trace st) + pending (world st) + 1"
proof (induction "pending (world st)" arbitrary: st rule: less_induct)
  case less
  obtain ev w' where e: "enc (world st) None = (ev, w')" by (cases "enc (world st) None")
  note s = flush_step[OF h e]
  show ?case
  proof (cases "0 \<le> avcodec_receive_packet_ret ev")
    case False
    then have "flush_loop enc st = Some (Done, log_event (SendFrame None) (st\<lparr>world := w'\<rparr>))"
      using s e by (subst flush_loop.simps) simp
    then show ?thesis by (simp add: log_event_def null_pushes_append)
  next
    case True
    let ?st2 = "log_event WriteFrame (log_event (SendFrame None) (st\<lparr>world := w'\<rparr>))"
    have dec: "pending (world ?st2) < pending (world st)"
      using s True by (simp add: log_event_def)
    obtain st' where f: "flush_loop enc ?st2 = Some (Done, st')"
      and b: "null_pushes (trace st') \<le> null_pushes (trace ?st2) + pending (world ?st2) + 1"
      using less[OF dec] by blast
    have "flush_loop enc st = Some (Done, st')"
      using s e True f by (subst flush_loop.simps) simp
    moreover have "null_pushes (trace ?st2) = null_pushes (trace st) + 1"
      by (simp add: log_event_def null_pushes_append)
    ultimately show ?thesis using b dec by auto
  qed
qed

lemma holding_encoder_flushes: "flushes_in_bounded_steps holding_encoder (\<lambda>n. n)"
  unfolding flushes_in_bounded_steps_def
proof
  fix w :: nat
  show "case holding_encoder w None of
        (ev, w') \<Rightarrow>
          out_packet_alloc_ok ev
          \<and> (0 \<le> avcodec_send_frame_ret ev \<or> avcodec_send_frame_ret ev = AVERROR_EOF)
          \<and> (if 0 \<le> avcodec_receive_packet_ret ev
              then av_write_frame_ret ev = 0 \<and> w' < w
              else avcodec_receive_packet_ret ev = AVERROR EAGAIN
                   \<or> avcodec_receive_packet_ret ev = AVERROR_EOF)"
    by (cases w) (simp_all add: answer_def AVERROR_EOF_def)
qed

text \<open>
  C7. Let the encoder hold finitely many packets back (\<open>flushes_in_bounded_steps\<close>: a null
  push that yields a packet leaves one packet less pending, and with nothing pending a
  null push yields no packet). Then the flushing loop ends, without a failure, after at
  most one null push more than there are packets pending; and whenever the outer loop
  reaches the flushing loop, the loop ends and the trailer is written next.
\<close>

theorem flush_terminates_then_trailer:
  assumes h: "flushes_in_bounded_steps enc pending"
  shows "(\<exists>st'. flush_loop enc st = Some (Done, st')
            \<and> null_pushes (trace st') \<le> null_pushes (trace st) + pending (world st) + 1)
     \<and> (\<forall>st0 st1 st2.
          fill_loop outccx False st0 = (Done, True, st1)
          \<and> drain_loop enc outccx True st1 = Some (Done, st2) \<longrightarrow>
          (\<exists>st3. flush_loop enc st2 = Some (Done, st3)
             \<and> transcode enc outccx tr st0
                 = Some (if write_output_file_trailer tr \<noteq> 0 then AVERROR_EXIT else 0,
                         log_event WriteTrailer st3)))"
proof -
  have a: "\<exists>st'. flush_loop enc st = Some (Done, st')
            \<and> null_pushes (trace st') \<le> null_pushes (trace st) + pending (world st) + 1"
    by (rule flush_loop_terminates[OF h])
  have b: "\<exists>st3. flush_loop enc st2 = Some (Done, st3)
             \<and> transcode enc outccx tr st0
                 = Some (if write_output_file_trailer tr \<noteq> 0 then AVERROR_EXIT else 0,
                         log_event WriteTrailer st3)"
    if fill: "fill_loop outccx False st0 = (Done, True, st1)"
      and drain: "drain_loop enc outccx True st1 = Some (Done, st2)" for st0 st1 st2
  proof -
    obtain st3 where f: "flush_loop enc st2 = Some (Done, st3)"
      using flush_loop_terminates[OF h, of st2] by blast
    have "transcode_loop enc outccx st0 = Some (Done, st3)"
      by (subst transcode_loop.simps) (simp add: fill drain f)
    then show ?thesis using f by (simp add: transcode_def)
  qed
  show ?thesis using a b by blast
qed

theorem flush_terminates_then_trailer_witness:
  "flushes_in_bounded_steps holding_encoder (\<lambda>n. n)
   \<and> (\<exists>st'. flush_loop holding_encoder
              \<lparr>fifo = 0, pts = 8, input = [], world = 2, trace = []\<rparr> = Some (Done, st')
         \<and> null_pushes (trace st') \<le> 3)
   \<and> (\<exists>st3. transcode holding_encoder \<lparr>sample_rate = 48000, frame_size = 4\<rparr> 0
         \<lparr>fifo = 0, pts = 0,
          input = [packet_event 0 0 3, packet_event AVERROR_EOF AVERROR_EOF 0],
          world = 0, trace = []\<rparr> = Some (0, log_event WriteTrailer st3))"
proof -
  let ?ctx = "\<lparr>sample_rate = 48000, frame_size = 4\<rparr>"
  let ?st = "\<lparr>fifo = 0, pts = 0,
       input = [packet_event 0 0 3, packet_event AVERROR_EOF AVERROR_EOF 0],
       world = 0::nat, trace = []\<rparr>"
  let ?st1 = "\<lparr>fifo = 3, pts = 0, input = [], world = 0::nat, trace = [ReceiveFrame 3]\<rparr>"
  let ?st2 = "\<lparr>fifo = 0, pts = 3, input = [], world = 1::nat,
          trace = [ReceiveFrame 3, SendFrame (Some \<lparr>nb_samples = 3, frame_pts = 0\<rparr>)]\<rparr>"
  have fill: "fill_loop ?ctx False ?st = (Done, True, ?st1)"
    by code_simp
  have drain: "drain_loop holding_encoder ?ctx True ?st1 = Some (Done, ?st2)"
    by code_simp
  note t = flush_terminates_then_trailer[OF holding_encoder_flushes,
      of "\<lparr>fifo = 0, pts = 8, input = [], world = 2, trace = []\<rparr>" ?ctx 0]
  have a: "\<exists>st'. flush_loop holding_encoder
              \<lparr>fifo = 0, pts = 8, input = [], world = 2, trace = []\<rparr> = Some (Done, st')
         \<and> null_pushes (trace st') \<le> 3"
    using t by (simp add: eval_nat_numeral)
  have b: "\<exists>st3. transcode holding_encoder ?ctx 0 ?st = Some (0, log_event WriteTrailer st3)"
    using t fill drain by (fastforce simp: write_output_file_trailer_def)
  show ?thesis using holding_encoder_flushes a b by blast
qed

subsection \<open>Opening the input\<close>

lemma open_input_file_stream_count:
  "length (streams f) \<noteq> 1 \<Longrightarrow>
     fst (open_input_file f) < 0 \<and> snd (open_input_file f) = None"
  by (simp add: open_input_file_def AVERROR_EXIT_def)

text \<open>
  C8, as the specification states it, fails: \<open>open_input_file\<close> counts the streams of the
  file and never looks at their media type. A file whose only stream is a video stream
  exposes no audio stream and is opened without an error.
\<close>

theorem single_video_stream_is_accepted:
  "audio_streams (inp (run_of [video_stream] 4 [])) = []
   \<and> open_input_file (inp (run_of [video_stream] 4 []))
       = (0, Some \<lparr>sample_rate = 48000, frame_size = 0\<rparr>)"
  by (simp add: audio_streams_def run_of_def video_stream_def open_input_file_def)

text \<open>
  C8, amended. When the number of streams of the input, of whatever media type, is not
  exactly one, \<open>open_input_file\<close> fails: with \<open>AVERROR_EXIT\<close> when the file could be opened
  and its stream information read, with the error of those calls otherwise. \<open>main\<close> then
  returns \<open>AVERROR_EXIT\<close> before anything of the pipeline has run, and the low byte of that
  value, the exit status, is not zero.
\<close>

theorem wrong_stream_count_is_fatal:
  assumes "length (streams (inp r)) \<noteq> 1" and "argc r = 3"
  shows "fst (open_input_file (inp r)) \<noteq> 0
     \<and> (0 \<le> avformat_open_input_ret (inp r) \<and> 0 \<le> avformat_find_stream_info_ret (inp r)
          \<longrightarrow> fst (open_input_file (inp r)) = AVERROR_EXIT)
     \<and> main enc r = Some (Exit AVERROR_EXIT, [])
     \<and> AVERROR_EXIT mod 256 \<noteq> 0"
proof -
  have a: "fst (open_input_file (inp r)) < 0" and b: "snd (open_input_file (inp r)) = None"
    using open_input_file_stream_count[OF assms(1)] by simp_all
  have c: "0 \<le> avformat_open_input_ret (inp r) \<and> 0 \<le> avformat_find_stream_info_ret (inp r)
          \<longrightarrow> fst (open_input_file (inp r)) = AVERROR_EXIT"
    using assms(1) by (simp add: open_input_file_def)
  obtain e where o: "open_input_file (inp r) = (e, None)"
    using b by (cases "open_input_file (inp r)") auto
  have m: "main enc r = Some (Exit AVERROR_EXIT, [])"
    using assms(2) by (simp add: main_def o)
  have d: "AVERROR_EXIT mod 256 \<noteq> 0" by (simp add: AVERROR_EXIT_def)
  show ?thesis using a c m d by simp
qed

theorem wrong_stream_count_is_fatal_witness:
  "length (streams (inp (run_of [audio_stream, audio_stream] 4 []))) = 2
   \<and> fst (open_input_file (inp (run_of [audio_stream, audio_stream] 4 []))) = AVERROR_EXIT
   \<and> main holding_encoder (run_of [audio_stream, audio_stream] 4 [])
       = Some (Exit AVERROR_EXIT, [])
   \<and> main holding_encoder (run_of [] 4 []) = Some (Exit AVERROR_EXIT, [])"
proof -
  let ?r = "run_of [audio_stream, audio_stream] 4 [] :: nat run"
  let ?empty = "run_of [] 4 [] :: nat run"
  have l: "length (streams (inp ?r)) \<noteq> 1" and l0: "length (streams (inp ?empty)) \<noteq> 1"
    by (simp_all add: run_of_def)
  have a: "argc ?r = 3" and a0: "argc ?empty = 3" by (simp_all add: run_of_def)
  have o: "0 \<le> avformat_open_input_ret (inp ?r) \<and> 0 \<le> avformat_find_stream_info_ret (inp ?r)"
    by (simp add: run_of_def)
  have n: "length (streams (inp ?r)) = 2" by (simp add: run_of_def)
  show ?thesis
    using wrong_stream_count_is_fatal[OF l a, of holding_encoder]
      wrong_stream_count_is_fatal[OF l0 a0, of holding_encoder] o n
    by simp
qed

subsection \<open>The assertion of the resampler\<close>

lemma open_output_file_sample_rate:
  "open_output_file f inpccx = (e, Some outccx) \<Longrightarrow> sample_rate outccx = sample_rate inpccx"
  by (auto simp: open_output_file_def open_output_cleanup_def Let_def split: if_splits)

lemma init_resampler_equal_rates:
  "sample_rate outccx = sample_rate inpccx \<Longrightarrow> init_resampler a b inpccx outccx \<noteq> None"
  by (simp add: init_resampler_def)

text \<open>
  C9. Whenever \<open>open_output_file\<close> yields an encoder context, its sample rate is the
  decoder's, so \<open>init_resampler\<close> does not abort on it; and no run of \<open>main\<close> ends in the
  abort of the assertion.
\<close>

theorem resampler_assertion_never_fires:
  "(\<forall>e outccx. open_output_file f inpccx = (e, Some outccx) \<longrightarrow>
       sample_rate outccx = sample_rate inpccx \<and> init_resampler a b inpccx outccx \<noteq> None)
   \<and> (\<forall>tr. main enc r \<noteq> Some (Abort, tr))"
proof -
  have l: "\<forall>e outccx. open_output_file f inpccx = (e, Some outccx) \<longrightarrow>
       sample_rate outccx = sample_rate inpccx \<and> init_resampler a b inpccx outccx \<noteq> None"
    using open_output_file_sample_rate init_resampler_equal_rates by blast
  have m: "main enc r \<noteq> Some (Abort, tr)" for tr
  proof (cases "argc r \<noteq> 3")
    case True
    then show ?thesis by (simp add: main_def)
  next
    case False
    obtain e c where i: "open_input_file (inp r) = (e, c)" by (cases "open_input_file (inp r)")
    show ?thesis
    proof (cases c)
      case None
      then show ?thesis using False i by (simp add: main_def)
    next
      case (Some inpccx)
      obtain e' c' where o: "open_output_file (outp r) inpccx = (e', c')"
        by (cases "open_output_file (outp r) inpccx")
      show ?thesis
      proof (cases c')
        case None
        then show ?thesis using False i Some o by (simp add: main_def)
      next
        case s: (Some outccx)
        have "sample_rate outccx = sample_rate inpccx"
          using open_output_file_sample_rate o s by blast
        then obtain x where
          x: "init_resampler (swr_alloc_set_opts2_ret r) (swr_init_ret r) inpccx outccx = Some x"
          using init_resampler_equal_rates by blast
        show ?thesis using False i Some o s x
          by (auto simp: main_def split: option.splits prod.splits)
      qed
    qed
  qed
  show ?thesis using l m by blast
qed

theorem resampler_assertion_never_fires_witness:
  "open_output_file (outp (run_of [audio_stream] 4 [])) \<lparr>sample_rate = 48000, frame_size = 0\<rparr>
      = (0, Some \<lparr>sample_rate = 48000, frame_size = 4\<rparr>)
   \<and> init_resampler 0 0 \<lparr>sample_rate = 48000, frame_size = 0\<rparr>
        \<lparr>sample_rate = 48000, frame_size = 4\<rparr> = Some 0
   \<and> main holding_encoder (run_of [audio_stream] 4 [])
      = Some (Exit 0, [WriteHeader, SendFrame None, WriteTrailer])"
proof -
  have o: "open_output_file (outp (run_of [audio_stream] 4 [])) \<lparr>sample_rate = 48000, frame_size = 0\<rparr>
      = (0, Some \<lparr>sample_rate = 48000, frame_size = 4\<rparr>)"
    by (simp add: open_output_file_def run_of_def)
  have i: "init_resampler 0 0 \<lparr>sample_rate = 48000, frame_size = 0\<rparr>
        \<lparr>sample_rate = 48000, frame_size = 4\<rparr> = Some 0"
    by (simp add: init_resampler_def)
  have m: "main holding_encoder (run_of [audio_stream] 4 [])
      = Some (Exit 0, [WriteHeader, SendFrame None, WriteTrailer])"
    by code_simp
  show ?thesis
    using resampler_assertion_never_fires[of "outp (run_of [audio_stream] 4 [])"
        "\<lparr>sample_rate = 48000, frame_size = 0\<rparr>" 0 0 holding_encoder "run_of [audio_stream] 4 []"]
      o i m
    by simp
qed

subsection \<open>Samples decoded and samples encoded\<close>

text \<open>
  C1. The input is two packets, and the decoder holds one frame back: the first call of
  the pump decodes a frame of 4 samples; the second finds the end of the file, flushes the
  decoder and receives the frame of 4 samples it held back. \<open>decode_audio_frame\<close> reports
  both \<open>data_present\<close> and \<open>finished\<close>, and \<open>read_decode_convert_and_store\<close> returns on
  \<open>finished\<close> without storing the frame. The label \<open>cleanup\<close> finds \<open>conv_isamps\<close> to hold
  \<open>NULL\<close> in this run, so the run goes on and succeeds; the decoder produced 8 samples and
  the encoder was handed 4.
\<close>

theorem delayed_frame_at_end_of_file_is_dropped:
  "main holding_encoder
      (run_of [audio_stream] 4 [packet_event 0 0 4, packet_event AVERROR_EOF 0 4])
     = Some (Exit 0,
         [WriteHeader, ReceiveFrame 4, SendFrame (Some \<lparr>nb_samples = 4, frame_pts = 0\<rparr>),
          ReceiveFrame 4, SendFrame None, WriteFrame, SendFrame None, WriteTrailer])
   \<and> decoded_samples
         [WriteHeader, ReceiveFrame 4, SendFrame (Some \<lparr>nb_samples = 4, frame_pts = 0\<rparr>),
          ReceiveFrame 4, SendFrame None, WriteFrame, SendFrame None, WriteTrailer] = 8
   \<and> encoded_samples
         [WriteHeader, ReceiveFrame 4, SendFrame (Some \<lparr>nb_samples = 4, frame_pts = 0\<rparr>),
          ReceiveFrame 4, SendFrame None, WriteFrame, SendFrame None, WriteTrailer] = 4"
proof -
  have run: "main holding_encoder
      (run_of [audio_stream] 4 [packet_event 0 0 4, packet_event AVERROR_EOF 0 4])
     = Some (Exit 0,
         [WriteHeader, ReceiveFrame 4, SendFrame (Some \<lparr>nb_samples = 4, frame_pts = 0\<rparr>),
          ReceiveFrame 4, SendFrame None, WriteFrame, SendFrame None, WriteTrailer])"
    by code_simp
  show ?thesis using run by (simp add: encoded_samples_def)
qed

end
